theory Spec2Isabelle
  imports Complex_Main "HOL-Library.Sublist"
begin

section \<open>Configuration constants of watchdog.py\<close>

definition LOG_FILE :: string where
  "LOG_FILE = ''/var/log/file_changes.log''"

definition COMPRESS_INTERVAL :: nat where
  "COMPRESS_INTERVAL = 3600"

definition LOG_RETENTION_DAYS :: real where
  "LOG_RETENTION_DAYS = 7"

text \<open>
  The icons are Python string literals holding one code point each. A \<^typ>\<open>string\<close> here
  is a list of bytes, so each icon is written as its UTF-8 encoding.
\<close>

definition MODIFIED_ICON :: string where
  "MODIFIED_ICON = [CHR 0xF0, CHR 0x9F, CHR 0x94, CHR 0x84]"

definition CREATED_ICON :: string where
  "CREATED_ICON = [CHR 0xE2, CHR 0x9C, CHR 0xA8]"

definition DELETED_ICON :: string where
  "DELETED_ICON = [CHR 0xE2, CHR 0x9D, CHR 0x8C]"

definition MOVED_ICON :: string where
  "MOVED_ICON = [CHR 0xF0, CHR 0x9F, CHR 0x94, CHR 0x80]"

section \<open>The file system and the logging sink\<close>

text \<open>
  A file holds a sequence of chunks: a text line written by the logging sink, or the
  gzip member that \<open>gzip.open(..., "wb")\<close> followed by \<open>shutil.copyfileobj\<close> writes for
  the bytes it was given. Every file carries its last-modified time in seconds.
\<close>

datatype chunk = Line string | GzBlob "chunk list"

datatype node = File "chunk list" real | Dir

type_synonym fs = "string \<Rightarrow> node option"

text \<open>
  What the clock and the formatter give at the moment of a call: \<open>time.time()\<close>,
  \<open>datetime.now()\<close> and the \<open>%(asctime)s\<close> field of the log format. A write made
  during the call stamps the file with \<open>now_time\<close>.
\<close>

record datetime =
  year :: nat
  month :: nat
  day :: nat
  hour :: nat
  minute :: nat
  second :: nat

record env =
  now_time :: real
  now_dt :: datetime
  asctime :: string

definition os_path_exists :: "fs \<Rightarrow> string \<Rightarrow> bool" where
  "os_path_exists fs p = (fs p \<noteq> None)"

definition os_path_isfile :: "fs \<Rightarrow> string \<Rightarrow> bool" where
  "os_path_isfile fs p = (case fs p of Some (File d m) \<Rightarrow> True | _ \<Rightarrow> False)"

text \<open>
  \<open>os.path.getmtime\<close> of a regular file; the program asks for it only after
  \<open>os.path.isfile\<close> has answered yes, and on any other path the result is an error.
\<close>

definition os_path_getmtime :: "fs \<Rightarrow> string \<Rightarrow> real option" where
  "os_path_getmtime fs p = (case fs p of Some (File d m) \<Rightarrow> Some m | _ \<Rightarrow> None)"

definition os_path_join :: "string \<Rightarrow> string \<Rightarrow> string" where
  "os_path_join a b =
     (if prefix ''/'' b then b
      else if a \<noteq> [] \<and> last a \<noteq> CHR ''/'' then a @ ''/'' @ b
      else a @ b)"

text \<open>
  \<open>logging.basicConfig(filename=LOG_FILE, format="%(asctime)s - %(message)s")\<close>: every
  \<open>logging.info\<close> and \<open>logging.error\<close> appends one formatted line to the file at
  \<open>LOG_FILE\<close>. The sink keeps its own open stream: once the file has been unlinked its
  writes reach no directory entry, and the sink never raises into the caller.
\<close>

definition format_record :: "env \<Rightarrow> string \<Rightarrow> string" where
  "format_record e msg = asctime e @ '' - '' @ msg"

definition logging_info :: "env \<Rightarrow> string \<Rightarrow> fs \<Rightarrow> fs" where
  "logging_info e msg fs =
     (case fs LOG_FILE of
        Some (File d m) \<Rightarrow> fs(LOG_FILE \<mapsto> File (d @ [Line (format_record e msg)]) (now_time e))
      | _ \<Rightarrow> fs)"

definition logging_error :: "env \<Rightarrow> string \<Rightarrow> fs \<Rightarrow> fs" where
  "logging_error e msg fs = logging_info e msg fs"

section \<open>FileMonitorHandler\<close>

datatype kind = Created | Modified | Deleted | Moved

record event =
  event_type :: kind
  src_path :: string
  dest_path :: string
  is_directory :: bool

text \<open>Each handler returns the messages it passes to \<open>logging.info\<close>, in order.\<close>

definition on_modified :: "event \<Rightarrow> string list" where
  "on_modified ev =
     (if \<not> is_directory ev then [MODIFIED_ICON @ '' Modified: '' @ src_path ev] else [])"

definition on_created :: "event \<Rightarrow> string list" where
  "on_created ev =
     (if \<not> is_directory ev then [CREATED_ICON @ '' Created: '' @ src_path ev] else [])"

definition on_deleted :: "event \<Rightarrow> string list" where
  "on_deleted ev =
     (if \<not> is_directory ev then [DELETED_ICON @ '' Deleted: '' @ src_path ev] else [])"

definition on_moved :: "event \<Rightarrow> string list" where
  "on_moved ev =
     (if \<not> is_directory ev
      then [MOVED_ICON @ '' Moved: '' @ src_path ev @ '' to '' @ dest_path ev]
      else [])"

text \<open>The base class \<open>FileSystemEventHandler\<close> calls the method named after the event's kind.\<close>

fun dispatch :: "event \<Rightarrow> string list" where
  "dispatch ev =
     (case event_type ev of
        Modified \<Rightarrow> on_modified ev
      | Created \<Rightarrow> on_created ev
      | Deleted \<Rightarrow> on_deleted ev
      | Moved \<Rightarrow> on_moved ev)"

text \<open>The tag the source fixes for each kind: the icon, a blank, the kind's word and a colon.\<close>

fun kind_tag :: "kind \<Rightarrow> string" where
  "kind_tag Created = CREATED_ICON @ '' Created:''"
| "kind_tag Modified = MODIFIED_ICON @ '' Modified:''"
| "kind_tag Deleted = DELETED_ICON @ '' Deleted:''"
| "kind_tag Moved = MOVED_ICON @ '' Moved:''"

section \<open>get_existing_paths\<close>

definition paths :: "string list" where
  "paths = [''/home'', ''/etc'', ''/root'', ''/usr'', ''/opt'']"

definition existing_of :: "fs \<Rightarrow> string list \<Rightarrow> string list" where
  "existing_of fs ps = [path \<leftarrow> ps. os_path_exists fs path]"

definition get_existing_paths :: "fs \<Rightarrow> string list" where
  "get_existing_paths fs = existing_of fs paths"

section \<open>compress_log\<close>

text \<open>
  \<open>KeyboardInterrupt\<close> is not an \<open>Exception\<close> in Python; every other error of this
  program is, and carries the text that \<open>str(e)\<close> gives.
\<close>

datatype exn = KeyboardInterrupt | Exception string

text \<open>
  Where the environment makes a step of the rotation fail: opening or reading the log,
  opening the archive for writing, copying into it (after the given number of chunks
  has been written), or reopening the log for writing.
\<close>

datatype fault = NoFault | ReadFails | ArchiveOpenFails | CopyFails nat | TruncateFails

text \<open>\<open>strftime("%Y%m%d_%H%M%S")\<close>: decimal fields, zero-padded to 4 and 2 digits.\<close>

definition digit :: "nat \<Rightarrow> char" where
  "digit n = ''0123456789'' ! (n mod 10)"

fun decimal :: "nat \<Rightarrow> string" where
  "decimal n = (if n < 10 then [digit n] else decimal (n div 10) @ [digit n])"

declare decimal.simps [simp del]

definition zpad :: "nat \<Rightarrow> string \<Rightarrow> string" where
  "zpad w s = replicate (w - length s) CHR ''0'' @ s"

definition strftime :: "datetime \<Rightarrow> string" where
  "strftime dt =
     zpad 4 (decimal (year dt)) @ zpad 2 (decimal (month dt)) @ zpad 2 (decimal (day dt))
     @ ''_'' @
     zpad 2 (decimal (hour dt)) @ zpad 2 (decimal (minute dt)) @ zpad 2 (decimal (second dt))"

definition compressed_log :: "env \<Rightarrow> string" where
  "compressed_log e = LOG_FILE @ ''_'' @ strftime (now_dt e) @ ''.gz''"

text \<open>
  Lines 53 to 55: open the log for reading, open the archive for writing (which creates
  it, or empties it when it exists), copy. The result is the exception raised, if any,
  and the file system as the step leaves it.
\<close>

definition rot_snapshot :: "env \<Rightarrow> fault \<Rightarrow> fs \<Rightarrow> exn option \<times> fs" where
  "rot_snapshot e flt fs =
     (case fs LOG_FILE of
        None \<Rightarrow> (Some (Exception ''No such file or directory''), fs)
      | Some Dir \<Rightarrow> (Some (Exception ''Is a directory''), fs)
      | Some (File d m) \<Rightarrow>
          if flt = ReadFails then (Some (Exception ''Permission denied''), fs)
          else if flt = ArchiveOpenFails \<or> fs (compressed_log e) = Some Dir
          then (Some (Exception ''Permission denied''), fs)
          else (case flt of
                  CopyFails k \<Rightarrow>
                    (Some (Exception ''No space left on device''),
                     fs(compressed_log e \<mapsto> File [GzBlob (take k d)] (now_time e)))
                | _ \<Rightarrow> (None, fs(compressed_log e \<mapsto> File [GzBlob d] (now_time e)))))"

text \<open>Line 58: \<open>open(LOG_FILE, 'w').close()\<close> creates the file or cuts it to nothing.\<close>

definition rot_truncate :: "env \<Rightarrow> fault \<Rightarrow> fs \<Rightarrow> exn option \<times> fs" where
  "rot_truncate e flt fs =
     (if flt = TruncateFails then (Some (Exception ''Permission denied''), fs)
      else if fs LOG_FILE = Some Dir then (Some (Exception ''Is a directory''), fs)
      else (None, fs(LOG_FILE \<mapsto> File [] (now_time e))))"

text \<open>Line 60.\<close>

definition rot_note :: "env \<Rightarrow> fs \<Rightarrow> fs" where
  "rot_note e fs =
     logging_info e (''Log compressed and saved as: '' @ compressed_log e) fs"

definition compress_log :: "env \<Rightarrow> fault \<Rightarrow> fs \<Rightarrow> exn option \<times> fs" where
  "compress_log e flt fs =
     (case rot_snapshot e flt fs of
        (Some x, fs1) \<Rightarrow> (Some x, fs1)
      | (None, fs1) \<Rightarrow>
          (case rot_truncate e flt fs1 of
             (Some x, fs2) \<Rightarrow> (Some x, fs2)
           | (None, fs2) \<Rightarrow> (None, rot_note e fs2)))"

text \<open>The content of the file at a path, when it is a regular file.\<close>

definition content :: "fs \<Rightarrow> string \<Rightarrow> chunk list option" where
  "content fs p = (case fs p of Some (File d m) \<Rightarrow> Some d | _ \<Rightarrow> None)"

text \<open>
  The shape \<open>YYYYMMDD_HHMMSS\<close>: fifteen characters, an underscore at position 8 and a
  decimal digit everywhere else.
\<close>

definition is_digit :: "char \<Rightarrow> bool" where
  "is_digit c = (c \<in> set ''0123456789'')"

definition is_compact_timestamp :: "string \<Rightarrow> bool" where
  "is_compact_timestamp s =
     (length s = 15 \<and> list_all is_digit (take 8 s) \<and> s ! 8 = CHR ''_''
      \<and> list_all is_digit (drop 9 s))"

definition valid_datetime :: "datetime \<Rightarrow> bool" where
  "valid_datetime dt =
     (year dt \<le> 9999 \<and> month dt \<le> 12 \<and> day dt \<le> 31 \<and> hour dt \<le> 23
      \<and> minute dt \<le> 59 \<and> second dt \<le> 59)"

section \<open>delete_old_logs\<close>

text \<open>
  \<open>os.listdir('/var/log')\<close> gives the names in the order the directory yields them, and
  \<open>os.remove\<close> raises on the paths the environment protects. The sweep is taken to be
  instantaneous: the records it logs stamp the log file with \<open>current_time\<close>.
\<close>

fun delete_old_logs_loop ::
  "env \<Rightarrow> (string \<Rightarrow> bool) \<Rightarrow> real \<Rightarrow> string list \<Rightarrow> fs \<Rightarrow> exn option \<times> fs" where
  "delete_old_logs_loop e remove_fails current_time [] fs = (None, fs)"
| "delete_old_logs_loop e remove_fails current_time (filename # rest) fs =
     (if prefix ''file_changes.log'' filename then
        (let file_path = os_path_join ''/var/log'' filename in
         if os_path_isfile fs file_path then
           (case os_path_getmtime fs file_path of
              None \<Rightarrow> (Some (Exception ''No such file or directory''), fs)
            | Some file_mod_time \<Rightarrow>
                if current_time - file_mod_time > LOG_RETENTION_DAYS * 86400 then
                  if remove_fails file_path
                  then (Some (Exception ''Permission denied''), fs)
                  else delete_old_logs_loop e remove_fails current_time rest
                         (logging_info e (''Deleted old log file: '' @ file_path)
                            (fs(file_path := None)))
                else delete_old_logs_loop e remove_fails current_time rest fs)
         else delete_old_logs_loop e remove_fails current_time rest fs)
      else delete_old_logs_loop e remove_fails current_time rest fs)"

definition delete_old_logs ::
  "env \<Rightarrow> (string \<Rightarrow> bool) \<Rightarrow> string list \<Rightarrow> fs \<Rightarrow> exn option \<times> fs" where
  "delete_old_logs e remove_fails listdir fs =
     delete_old_logs_loop e remove_fails (now_time e) listdir fs"

text \<open>The test of line 70 on a file's last-modified time.\<close>

definition expired :: "real \<Rightarrow> real \<Rightarrow> bool" where
  "expired current_time file_mod_time =
     (current_time - file_mod_time > LOG_RETENTION_DAYS * 86400)"

text \<open>A name that the sweep would delete in the given file system.\<close>

definition deletes :: "real \<Rightarrow> fs \<Rightarrow> string \<Rightarrow> bool" where
  "deletes current_time fs filename =
     (prefix ''file_changes.log'' filename \<and>
      (case fs (os_path_join ''/var/log'' filename) of
         Some (File d m) \<Rightarrow> expired current_time m
       | _ \<Rightarrow> False))"

section \<open>The loop of main\<close>

text \<open>
  What the environment gives one pass through the loop body: clocks for the rotation,
  the sweep and the exception handler, the fault of the rotation, whether the interrupt
  arrives during the sleep, the directory listing and the protected paths.
\<close>

record iter_env =
  rot_env :: env
  rot_fault :: fault
  sleep_interrupted :: bool
  sweep_env :: env
  listdir :: "string list"
  remove_fails :: "string \<Rightarrow> bool"
  exc_env :: env

text \<open>The calls that main makes, in the order it makes them.\<close>

datatype call = CompressLog | Sleep nat | DeleteOldLogs | LogError string | ObserverStop

record state =
  files :: fs
  calls :: "call list"
  running :: bool

text \<open>The two \<open>except\<close> clauses of lines 92 to 97.\<close>

definition handle :: "iter_env \<Rightarrow> exn \<Rightarrow> state \<Rightarrow> state" where
  "handle ie x st =
     (case x of
        KeyboardInterrupt \<Rightarrow>
          st\<lparr>files := logging_info (exc_env ie)
                         (DELETED_ICON @ '' File Integrity Monitoring Stopped!'') (files st),
              calls := calls st @ [ObserverStop],
              running := False\<rparr>
      | Exception m \<Rightarrow>
          st\<lparr>files := logging_error (exc_env ie) (''Error: '' @ m) (files st),
              calls := calls st @ [LogError (''Error: '' @ m)]\<rparr>)"

text \<open>The body of \<open>while True\<close>, lines 87 to 97.\<close>

definition iteration :: "iter_env \<Rightarrow> state \<Rightarrow> state" where
  "iteration ie st =
     (let st1 = st\<lparr>calls := calls st @ [CompressLog]\<rparr> in
      case compress_log (rot_env ie) (rot_fault ie) (files st1) of
        (Some x, fs1) \<Rightarrow> handle ie x (st1\<lparr>files := fs1\<rparr>)
      | (None, fs1) \<Rightarrow>
          (let st2 = st1\<lparr>files := fs1, calls := calls st1 @ [Sleep COMPRESS_INTERVAL]\<rparr> in
           if sleep_interrupted ie then handle ie KeyboardInterrupt st2
           else
             (let st3 = st2\<lparr>calls := calls st2 @ [DeleteOldLogs]\<rparr> in
              case delete_old_logs (sweep_env ie) (remove_fails ie) (listdir ie) (files st3) of
                (Some x, fs3) \<Rightarrow> handle ie x (st3\<lparr>files := fs3\<rparr>)
              | (None, fs3) \<Rightarrow> st3\<lparr>files := fs3\<rparr>)))"

text \<open>
  The loop has no exit but the interrupt. It is run here through the passes that a finite
  list of environments describes: the result is the state after that many passes, or the
  state in which the loop was left.
\<close>

fun main_loop :: "iter_env list \<Rightarrow> state \<Rightarrow> state" where
  "main_loop [] st = st"
| "main_loop (ie # ies) st =
     (let st' = iteration ie st in if running st' then main_loop ies st' else st')"

text \<open>The order of one pass as section 4.7 of the specification words it.\<close>

definition sleep_rotate_sweep :: "call list \<Rightarrow> bool" where
  "sleep_rotate_sweep cs = (cs = [Sleep COMPRESS_INTERVAL, CompressLog, DeleteOldLogs])"

section \<open>Appends interleaved with a rotation\<close>

text \<open>
  The observer threads append records through the logging sink while the main thread
  rotates. A schedule lists the atomic steps in the order they take effect: an append
  of one message, or the next of the three steps of \<open>compress_log\<close>.
\<close>

datatype pc = AtSnapshot | AtTruncate | AtNote | Finished | Aborted

datatype action = Append string | Rotate

fun rot_step :: "env \<Rightarrow> fault \<Rightarrow> pc \<Rightarrow> fs \<Rightarrow> pc \<times> fs" where
  "rot_step e flt AtSnapshot fs =
     (case rot_snapshot e flt fs of
        (Some x, fs') \<Rightarrow> (Aborted, fs') | (None, fs') \<Rightarrow> (AtTruncate, fs'))"
| "rot_step e flt AtTruncate fs =
     (case rot_truncate e flt fs of
        (Some x, fs') \<Rightarrow> (Aborted, fs') | (None, fs') \<Rightarrow> (AtNote, fs'))"
| "rot_step e flt AtNote fs = (Finished, rot_note e fs)"
| "rot_step e flt Finished fs = (Finished, fs)"
| "rot_step e flt Aborted fs = (Aborted, fs)"

fun exec :: "env \<Rightarrow> fault \<Rightarrow> action list \<Rightarrow> pc \<times> fs \<Rightarrow> pc \<times> fs" where
  "exec e flt [] c = c"
| "exec e flt (Append msg # as) (p, fs) = exec e flt as (p, logging_info e msg fs)"
| "exec e flt (Rotate # as) (p, fs) = exec e flt as (rot_step e flt p fs)"

definition appends :: "string list \<Rightarrow> action list" where
  "appends msgs = map Append msgs"

definition records :: "env \<Rightarrow> string list \<Rightarrow> chunk list" where
  "records e msgs = map (\<lambda>msg. Line (format_record e msg)) msgs"

text \<open>What a reader finds after the rotation: the archive's members and the live log.\<close>

definition archived :: "env \<Rightarrow> fs \<Rightarrow> chunk list" where
  "archived e fs =
     (case content fs (compressed_log e) of Some [GzBlob d] \<Rightarrow> d | _ \<Rightarrow> [])"

definition live :: "fs \<Rightarrow> chunk list" where
  "live fs = (case content fs LOG_FILE of Some d \<Rightarrow> d | None \<Rightarrow> [])"

section \<open>Example inputs\<close>

definition ex_dt :: datetime where
  "ex_dt = \<lparr>year = 2024, month = 1, day = 5, hour = 9, minute = 3, second = 7\<rparr>"

definition ex_env :: env where
  "ex_env = \<lparr>now_time = 1000000, now_dt = ex_dt, asctime = ''2024-01-05 09:03:07,000''\<rparr>"

text \<open>A log directory holding the live log with one record, written a minute ago.\<close>

definition ex_fs :: fs where
  "ex_fs = Map.empty(LOG_FILE \<mapsto> File [Line ''r0''] 999940)"

text \<open>
  A log directory, seen at time 1000000: the live log and an archive last written 8 days
  before, an archive written 6 days before and one written 9 days before. \<open>os.remove\<close>
  either never fails, or fails on the 8-day archive.
\<close>

definition never_fails :: "string \<Rightarrow> bool" where
  "never_fails p = False"

definition ex_protected :: "string \<Rightarrow> bool" where
  "ex_protected p = (p = ''/var/log/file_changes.log_20231228_000000.gz'')"

definition ex_log_dir :: fs where
  "ex_log_dir = Map.empty
     (LOG_FILE \<mapsto> File [Line ''r0''] 308800,
      ''/var/log/file_changes.log_20231228_000000.gz'' \<mapsto> File [GzBlob []] 308800,
      ''/var/log/file_changes.log_20231230_000000.gz'' \<mapsto> File [GzBlob []] 481600,
      ''/var/log/file_changes.log_20231227_000000.gz'' \<mapsto> File [GzBlob []] 222400)"

text \<open>
  A pass of the loop in which nothing fails, the sweep an hour after the rotation, and a
  pass whose rotation cannot reopen the log for writing.
\<close>

definition ex_iter :: iter_env where
  "ex_iter = \<lparr>rot_env = ex_env, rot_fault = NoFault, sleep_interrupted = False,
              sweep_env = ex_env\<lparr>now_time := 1003600\<rparr>,
              listdir = [''file_changes.log'', ''syslog''],
              remove_fails = never_fails, exc_env = ex_env\<rparr>"

definition ex_iter_fail :: iter_env where
  "ex_iter_fail = ex_iter\<lparr>rot_fault := TruncateFails\<rparr>"

definition ex_state :: state where
  "ex_state = \<lparr>files = ex_fs, calls = [], running = True\<rparr>"

section \<open>Event translation\<close>

text \<open>
  C7. An event whose directory flag is set yields no record. Any other event yields exactly
  one record; it starts with the tag fixed for the event's kind, followed by the source
  path, and for a move it contains the source path and the destination path.
\<close>

theorem dispatch_records:
  "dispatch ev =
     (if is_directory ev then []
      else [kind_tag (event_type ev) @ '' '' @ src_path ev @
            (if event_type ev = Moved then '' to '' @ dest_path ev else [])])
   \<and> (\<forall>r \<in> set (dispatch ev).
         prefix (kind_tag (event_type ev)) r \<and> sublist (src_path ev) r
         \<and> (event_type ev = Moved \<longrightarrow> sublist (dest_path ev) r))"
proof -
  let ?r = "kind_tag (event_type ev) @ '' '' @ src_path ev @
            (if event_type ev = Moved then '' to '' @ dest_path ev else [])"
  have eq: "dispatch ev = (if is_directory ev then [] else [?r])"
    by (cases "event_type ev")
       (simp_all add: on_modified_def on_created_def on_deleted_def on_moved_def)
  have src: "sublist (src_path ev) ?r"
    using sublist_appendI [of "src_path ev" "kind_tag (event_type ev) @ '' ''"] by simp
  have dst: "event_type ev = Moved \<Longrightarrow> sublist (dest_path ev) ?r"
    using sublist_append_leftI
      [of "dest_path ev" "kind_tag (event_type ev) @ '' '' @ src_path ev @ '' to ''"]
    by simp
  have tag: "prefix (kind_tag (event_type ev)) ?r"
    by (rule prefixI) simp
  show ?thesis
  proof (cases "is_directory ev")
    case True
    with eq show ?thesis by simp
  next
    case False
    with eq have d: "dispatch ev = [?r]" by simp
    show ?thesis unfolding d using False src dst tag by simp
  qed
qed

theorem dispatch_records_witness:
  "dispatch \<lparr>event_type = Moved, src_path = ''/etc/a'', dest_path = ''/etc/b'',
             is_directory = False\<rparr>
     = [MOVED_ICON @ '' Moved: /etc/a to /etc/b'']
   \<and> sublist ''/etc/a'' (MOVED_ICON @ '' Moved: /etc/a to /etc/b'')
   \<and> sublist ''/etc/b'' (MOVED_ICON @ '' Moved: /etc/a to /etc/b'')
   \<and> dispatch \<lparr>event_type = Moved, src_path = ''/etc/a'', dest_path = ''/etc/b'',
               is_directory = True\<rparr> = []"
  using dispatch_records [of "\<lparr>event_type = Moved, src_path = ''/etc/a'',
                               dest_path = ''/etc/b'', is_directory = False\<rparr>"]
        dispatch_records [of "\<lparr>event_type = Moved, src_path = ''/etc/a'',
                               dest_path = ''/etc/b'', is_directory = True\<rparr>"]
  by simp

section \<open>Path resolution\<close>

text \<open>
  C8. For every candidate list, the comprehension of \<open>get_existing_paths\<close> returns exactly
  the candidates that exist, in their original order, as a subsequence of the candidates;
  the function has no error result. The function itself applies it to its fixed list.
\<close>

theorem get_existing_paths_subsequence:
  "existing_of fs P = filter (\<lambda>p. fs p \<noteq> None) P
   \<and> subseq (existing_of fs P) P
   \<and> set (existing_of fs P) = {p. p \<in> set P \<and> fs p \<noteq> None}
   \<and> get_existing_paths fs = existing_of fs [''/home'', ''/etc'', ''/root'', ''/usr'', ''/opt'']"
  by (auto simp: existing_of_def get_existing_paths_def paths_def os_path_exists_def)

section \<open>The archive's name\<close>

lemma is_digit_digit: "is_digit (digit n)"
proof -
  have "n mod 10 < length ''0123456789''" by simp
  then have "''0123456789'' ! (n mod 10) \<in> set ''0123456789''" by (rule nth_mem)
  then show ?thesis unfolding is_digit_def digit_def .
qed

lemma is_digit_zero: "is_digit CHR ''0''" by (simp add: is_digit_def)

lemma decimal_digits: "list_all is_digit (decimal n)"
proof (induction n rule: decimal.induct)
  case (1 n)
  show ?case
  proof (cases "n < 10")
    case True
    then show ?thesis by (subst decimal.simps) (simp add: is_digit_digit)
  next
    case False
    with 1 have "list_all is_digit (decimal (n div 10))" by simp
    with False show ?thesis by (subst decimal.simps) (simp add: is_digit_digit)
  qed
qed

lemma decimal_length: "n < 10 ^ w \<Longrightarrow> 0 < w \<Longrightarrow> length (decimal n) \<le> w"
proof (induction n arbitrary: w rule: decimal.induct)
  case (1 n)
  show ?case
  proof (cases "n < 10")
    case True
    with 1(3) show ?thesis by (subst decimal.simps) simp
  next
    case False
    obtain v where w: "w = Suc v" using 1(3) by (cases w) auto
    from False 1(2) w have v: "0 < v" by (cases v) auto
    from 1(2) w have "n div 10 < 10 ^ v" by (simp add: less_mult_imp_div_less mult.commute)
    with 1(1) False v have "length (decimal (n div 10)) \<le> v" by blast
    with False w show ?thesis by (subst decimal.simps) simp
  qed
qed

lemma zpad_length: "length s \<le> w \<Longrightarrow> length (zpad w s) = w"
  by (simp add: zpad_def)

lemma zpad_digits: "list_all is_digit s \<Longrightarrow> list_all is_digit (zpad w s)"
  by (auto simp: zpad_def is_digit_zero list_all_iff)

lemma field_length: "n < 10 ^ w \<Longrightarrow> 0 < w \<Longrightarrow> length (zpad w (decimal n)) = w"
  by (simp add: zpad_length decimal_length)

lemma field_digits: "list_all is_digit (zpad w (decimal n))"
  by (simp add: zpad_digits decimal_digits)

lemma strftime_shape: "valid_datetime dt \<Longrightarrow> is_compact_timestamp (strftime dt)"
proof -
  assume v: "valid_datetime dt"
  let ?y = "zpad 4 (decimal (year dt))" and ?mo = "zpad 2 (decimal (month dt))"
  and ?d = "zpad 2 (decimal (day dt))" and ?h = "zpad 2 (decimal (hour dt))"
  and ?mi = "zpad 2 (decimal (minute dt))" and ?s = "zpad 2 (decimal (second dt))"
  from v have ly: "length ?y = 4" by (intro field_length) (simp_all add: valid_datetime_def)
  from v have lmo: "length ?mo = 2" by (intro field_length) (simp_all add: valid_datetime_def)
  from v have ld: "length ?d = 2" by (intro field_length) (simp_all add: valid_datetime_def)
  from v have lh: "length ?h = 2" by (intro field_length) (simp_all add: valid_datetime_def)
  from v have lmi: "length ?mi = 2" by (intro field_length) (simp_all add: valid_datetime_def)
  from v have ls: "length ?s = 2" by (intro field_length) (simp_all add: valid_datetime_def)
  define p where "p = ?y @ ?mo @ ?d"
  define q where "q = ?h @ ?mi @ ?s"
  have l8: "length p = 8" using ly lmo ld by (simp add: p_def)
  have l6: "length q = 6" using lh lmi ls by (simp add: q_def)
  have s: "strftime dt = p @ CHR ''_'' # q"
    by (simp add: strftime_def p_def q_def)
  have t: "take 8 (strftime dt) = p" unfolding s using l8 by simp
  have d: "drop 9 (strftime dt) = q" unfolding s using l8 by simp
  have n: "strftime dt ! 8 = CHR ''_''" unfolding s using l8 by (simp add: nth_append)
  have len: "length (strftime dt) = 15" unfolding s using l8 l6 by simp
  have dp: "list_all is_digit p" unfolding p_def by (simp add: field_digits)
  have dq: "list_all is_digit q" unfolding q_def by (simp add: field_digits)
  show ?thesis unfolding is_compact_timestamp_def t d n len
    using dp dq by simp
qed

section \<open>Rotation\<close>

lemma compressed_log_neq [simp]:
  "compressed_log e \<noteq> LOG_FILE" "LOG_FILE \<noteq> compressed_log e"
  by (simp_all add: compressed_log_def)

lemma ex_compressed: "compressed_log ex_env = ''/var/log/file_changes.log_20240105_090307.gz''"
  by (simp add: compressed_log_def ex_env_def ex_dt_def strftime_def zpad_def digit_def
      decimal.simps LOG_FILE_def)

lemma rot_snapshot_log: "snd (rot_snapshot e flt fs) LOG_FILE = fs LOG_FILE"
  by (auto simp: rot_snapshot_def split: option.splits node.splits fault.splits)

lemma compress_log_ok:
  assumes "compress_log e flt fs = (None, fs')"
  shows "\<exists>d m. fs LOG_FILE = Some (File d m)
       \<and> fs' = (fs(compressed_log e \<mapsto> File [GzBlob d] (now_time e)))
               (LOG_FILE \<mapsto> File [Line (format_record e
                     (''Log compressed and saved as: '' @ compressed_log e))] (now_time e))"
  using assms
  by (auto simp: compress_log_def rot_snapshot_def rot_truncate_def rot_note_def logging_info_def
      split: option.splits node.splits fault.splits if_splits prod.splits)



lemma ex_compress: "compress_log ex_env NoFault ex_fs =
   (None, (ex_fs(compressed_log ex_env \<mapsto> File [GzBlob [Line ''r0'']] 1000000))
            (LOG_FILE \<mapsto> File [Line (format_record ex_env
                (''Log compressed and saved as: '' @ compressed_log ex_env))] 1000000))"
  by (simp add: compress_log_def rot_snapshot_def rot_truncate_def rot_note_def logging_info_def
      ex_fs_def) (simp add: ex_env_def)

text \<open>
  C10. When the step that reads the log and writes the archive raises, \<open>compress_log\<close>
  ends with that step's exception and state: the truncation is not run, and the file at
  \<open>LOG_FILE\<close> is what it was before the rotation.
\<close>

theorem compress_failure_keeps_log:
  "fst (rot_snapshot e flt fs) = Some x \<Longrightarrow>
     compress_log e flt fs = rot_snapshot e flt fs
     \<and> snd (compress_log e flt fs) LOG_FILE = fs LOG_FILE"
proof -
  assume h: "fst (rot_snapshot e flt fs) = Some x"
  then have eq: "compress_log e flt fs = rot_snapshot e flt fs"
    by (cases "rot_snapshot e flt fs") (simp add: compress_log_def)
  show ?thesis unfolding eq using rot_snapshot_log by simp
qed

lemma ex_snapshot_fail: "rot_snapshot ex_env (CopyFails 0) ex_fs =
   (Some (Exception ''No space left on device''),
    ex_fs(compressed_log ex_env \<mapsto> File [GzBlob []] 1000000))"
  by (simp add: rot_snapshot_def ex_fs_def ex_env_def)

theorem compress_failure_keeps_log_witness:
  "fst (rot_snapshot ex_env (CopyFails 0) ex_fs) = Some (Exception ''No space left on device'')
   \<and> snd (compress_log ex_env (CopyFails 0) ex_fs) LOG_FILE = Some (File [Line ''r0''] 999940)"
  using compress_failure_keeps_log [of ex_env "CopyFails 0" ex_fs "Exception ''No space left on device''"]
  by (simp add: ex_snapshot_fail) (simp add: ex_fs_def)


text \<open>
  C4, as stated, fails: a rotation that succeeds ends by logging a record that names the
  archive, so the live log is not empty when the rotation returns.
\<close>

theorem rotation_log_not_empty:
  "fst (compress_log ex_env NoFault ex_fs) = None
   \<and> content (snd (compress_log ex_env NoFault ex_fs)) LOG_FILE \<noteq> Some []"
  by (simp add: ex_compress content_def)

text \<open>
  C4, amended. After a rotation that succeeds with no append interleaved between its
  steps (\<open>compress_log\<close> run as one uninterrupted call), the live log holds exactly one
  record, the note naming the archive; the archive holds the compressed content the log
  had when the rotation began; its name is the log's path, an underscore, the timestamp
  and \<open>.gz\<close>, the timestamp having the form \<open>YYYYMMDD_HHMMSS\<close>; the archive's path
  is the only one added to the directory (it replaces a file of that name), and no other
  path changes.
\<close>

theorem rotation_leaves_note:
  assumes "compress_log e flt fs = (None, fs')"
  shows "live fs' = [Line (format_record e (''Log compressed and saved as: '' @ compressed_log e))]
     \<and> (\<exists>d. content fs LOG_FILE = Some d \<and> content fs' (compressed_log e) = Some [GzBlob d])
     \<and> compressed_log e = LOG_FILE @ ''_'' @ strftime (now_dt e) @ ''.gz''
     \<and> (valid_datetime (now_dt e) \<longrightarrow> is_compact_timestamp (strftime (now_dt e)))
     \<and> dom fs' = insert (compressed_log e) (dom fs)
     \<and> (\<forall>p. p \<noteq> LOG_FILE \<and> p \<noteq> compressed_log e \<longrightarrow> fs' p = fs p)"
proof -
  from compress_log_ok [OF assms] obtain d m where
    f: "fs LOG_FILE = Some (File d m)" and
    g: "fs' = (fs(compressed_log e \<mapsto> File [GzBlob d] (now_time e)))
               (LOG_FILE \<mapsto> File [Line (format_record e
                     (''Log compressed and saved as: '' @ compressed_log e))] (now_time e))"
    by blast
  have 1: "live fs' = [Line (format_record e (''Log compressed and saved as: '' @ compressed_log e))]"
    by (simp add: g live_def content_def)
  have 2: "content fs LOG_FILE = Some d \<and> content fs' (compressed_log e) = Some [GzBlob d]"
    by (simp add: f g content_def)
  have 3: "compressed_log e = LOG_FILE @ ''_'' @ strftime (now_dt e) @ ''.gz''"
    by (simp add: compressed_log_def)
  have 6: "valid_datetime (now_dt e) \<longrightarrow> is_compact_timestamp (strftime (now_dt e))"
    by (simp add: strftime_shape)
  have 4: "dom fs' = insert (compressed_log e) (dom fs)"
    using f by (auto simp: g)
  have 5: "\<forall>p. p \<noteq> LOG_FILE \<and> p \<noteq> compressed_log e \<longrightarrow> fs' p = fs p"
    by (simp add: g)
  from 1 2 3 4 5 6 show ?thesis by blast
qed

theorem rotation_leaves_note_witness:
  "fst (compress_log ex_env NoFault ex_fs) = None
   \<and> live (snd (compress_log ex_env NoFault ex_fs)) =
       [Line ''2024-01-05 09:03:07,000 - Log compressed and saved as: /var/log/file_changes.log_20240105_090307.gz'']
   \<and> content (snd (compress_log ex_env NoFault ex_fs))
        ''/var/log/file_changes.log_20240105_090307.gz'' = Some [GzBlob [Line ''r0'']]
   \<and> valid_datetime (now_dt ex_env)
   \<and> is_compact_timestamp ''20240105_090307''"
proof -
  have v: "valid_datetime (now_dt ex_env)"
    by (simp add: valid_datetime_def ex_env_def ex_dt_def)
  have t: "strftime (now_dt ex_env) = ''20240105_090307''"
    by (simp add: ex_env_def ex_dt_def strftime_def zpad_def digit_def decimal.simps)
  have p: "compress_log ex_env NoFault ex_fs = (None, snd (compress_log ex_env NoFault ex_fs))"
    by (simp add: ex_compress)
  have c: "content ex_fs LOG_FILE = Some [Line ''r0'']"
    by (simp add: ex_fs_def content_def)
  have n: "format_record ex_env (''Log compressed and saved as: '' @ compressed_log ex_env) =
     ''2024-01-05 09:03:07,000 - Log compressed and saved as: /var/log/file_changes.log_20240105_090307.gz''"
    by (simp add: format_record_def ex_compressed) (simp add: ex_env_def)
  from rotation_leaves_note [OF p] c n v t show ?thesis
    by (simp add: ex_compressed) (simp add: ex_compress)
qed



section \<open>Rotation against concurrent appends\<close>

text \<open>Run without interruption, the three steps are \<open>compress_log\<close>.\<close>

lemma compress_log_as_steps:
  "snd (exec e flt [Rotate, Rotate, Rotate] (AtSnapshot, fs)) = snd (compress_log e flt fs)"
proof (cases "rot_snapshot e flt fs")
  case (Pair r fs1)
  note s = Pair
  show ?thesis
  proof (cases r)
    case (Some x)
    with s show ?thesis by (simp add: compress_log_def)
  next
    case None
    note rn = None
    show ?thesis
    proof (cases "rot_truncate e flt fs1")
      case (Pair r2 fs2)
      then show ?thesis using s rn by (cases r2) (simp_all add: compress_log_def)
    qed
  qed
qed

lemma logging_info_other: "p \<noteq> LOG_FILE \<Longrightarrow> logging_info e msg fs p = fs p"
  by (simp add: logging_info_def split: option.splits node.splits)

lemma logging_info_content:
  "content fs LOG_FILE = Some d \<Longrightarrow>
   content (logging_info e msg fs) LOG_FILE = Some (d @ [Line (format_record e msg)])"
  by (auto simp: logging_info_def content_def split: option.splits node.splits)

lemma exec_appends:
  "content fs LOG_FILE = Some d \<Longrightarrow>
   \<exists>fs'. exec e flt (appends msgs @ rest) (p, fs) = exec e flt rest (p, fs')
        \<and> content fs' LOG_FILE = Some (d @ records e msgs)
        \<and> (\<forall>q. q \<noteq> LOG_FILE \<longrightarrow> fs' q = fs q)"
proof (induction msgs arbitrary: fs d)
  case Nil
  then show ?case by (intro exI [of _ fs]) (simp add: appends_def records_def)
next
  case (Cons msg msgs)
  let ?fs = "logging_info e msg fs"
  have c: "content ?fs LOG_FILE = Some (d @ [Line (format_record e msg)])"
    using Cons.prems by (rule logging_info_content)
  from Cons.IH [OF c] obtain fs' where
    x: "exec e flt (appends msgs @ rest) (p, ?fs) = exec e flt rest (p, fs')" and
    y: "content fs' LOG_FILE = Some ((d @ [Line (format_record e msg)]) @ records e msgs)" and
    z: "\<forall>q. q \<noteq> LOG_FILE \<longrightarrow> fs' q = ?fs q"
    by blast
  have "exec e flt (appends (msg # msgs) @ rest) (p, fs) = exec e flt rest (p, fs')"
    using x by (simp add: appends_def)
  moreover have "content fs' LOG_FILE = Some (d @ records e (msg # msgs))"
    using y by (simp add: records_def)
  moreover have "\<forall>q. q \<noteq> LOG_FILE \<longrightarrow> fs' q = fs q"
    using z by (simp add: logging_info_other)
  ultimately show ?case by blast
qed


lemma snapshot_step:
  "content fs LOG_FILE = Some d \<Longrightarrow> fs (compressed_log e) \<noteq> Some Dir \<Longrightarrow>
   \<exists>fs'. rot_step e NoFault AtSnapshot fs = (AtTruncate, fs')
       \<and> content fs' LOG_FILE = Some d
       \<and> content fs' (compressed_log e) = Some [GzBlob d]"
  by (cases "fs LOG_FILE") (auto simp: rot_snapshot_def content_def split: node.splits)

lemma truncate_step:
  "content fs LOG_FILE = Some d \<Longrightarrow>
   \<exists>fs'. rot_step e NoFault AtTruncate fs = (AtNote, fs')
       \<and> content fs' LOG_FILE = Some []
       \<and> (\<forall>q. q \<noteq> LOG_FILE \<longrightarrow> fs' q = fs q)"
  by (cases "fs LOG_FILE") (auto simp: rot_truncate_def content_def split: node.splits)

lemma note_step:
  "content fs LOG_FILE = Some d \<Longrightarrow>
   \<exists>fs'. rot_step e flt AtNote fs = (Finished, fs')
       \<and> content fs' LOG_FILE = Some (d @ [Line (format_record e
              (''Log compressed and saved as: '' @ compressed_log e))])
       \<and> (\<forall>q. q \<noteq> LOG_FILE \<longrightarrow> fs' q = fs q)"
  by (simp add: rot_note_def logging_info_content logging_info_other)



lemma ex_schedule_run:
  "exec ex_env NoFault [Rotate, Append ''x'', Rotate, Rotate] (AtSnapshot, ex_fs) =
     (Finished, (ex_fs(compressed_log ex_env \<mapsto> File [GzBlob [Line ''r0'']] 1000000))
            (LOG_FILE \<mapsto> File [Line (format_record ex_env
                (''Log compressed and saved as: '' @ compressed_log ex_env))] 1000000))"
proof -
  have n: "now_time ex_env = 1000000" by (simp add: ex_env_def)
  have 1: "rot_step ex_env NoFault AtSnapshot ex_fs =
       (AtTruncate, ex_fs(compressed_log ex_env \<mapsto> File [GzBlob [Line ''r0'']] 1000000))"
    by (simp add: rot_snapshot_def ex_fs_def n)
  let ?f1 = "ex_fs(compressed_log ex_env \<mapsto> File [GzBlob [Line ''r0'']] 1000000)"
  have 2: "logging_info ex_env ''x'' ?f1 =
        ?f1(LOG_FILE \<mapsto> File [Line ''r0'', Line (format_record ex_env ''x'')] 1000000)"
    by (simp add: logging_info_def ex_fs_def n)
  let ?f2 = "?f1(LOG_FILE \<mapsto> File [Line ''r0'', Line (format_record ex_env ''x'')] 1000000)"
  have 3: "rot_step ex_env NoFault AtTruncate ?f2 = (AtNote, ?f1(LOG_FILE \<mapsto> File [] 1000000))"
    by (simp add: rot_truncate_def n)
  let ?f3 = "?f1(LOG_FILE \<mapsto> File [] 1000000)"
  have 4: "rot_step ex_env NoFault AtNote ?f3 =
      (Finished, ?f1(LOG_FILE \<mapsto> File [Line (format_record ex_env
                (''Log compressed and saved as: '' @ compressed_log ex_env))] 1000000))"
    by (simp add: rot_note_def logging_info_def n)
  show ?thesis
    by (simp only: exec.simps 1 2 3 4)
qed



text \<open>
  C1, as stated, fails: nothing excludes an append between the copy and the truncation.
  With the schedule snapshot, append of \<open>x\<close>, truncate, note, the rotation completes
  and the record of \<open>x\<close> is neither in the archive nor in the live log.
\<close>

theorem append_during_rotation_lost:
  "fst (exec ex_env NoFault [Rotate, Append ''x'', Rotate, Rotate] (AtSnapshot, ex_fs)) = Finished
   \<and> count_list
        (archived ex_env (snd (exec ex_env NoFault [Rotate, Append ''x'', Rotate, Rotate]
                                 (AtSnapshot, ex_fs)))
         @ live (snd (exec ex_env NoFault [Rotate, Append ''x'', Rotate, Rotate]
                                 (AtSnapshot, ex_fs))))
        (Line (format_record ex_env ''x'')) = 0"
  unfolding ex_schedule_run
  by (simp add: archived_def live_def content_def format_record_def)


text \<open>
  C1, amended. Whatever the interleaving of the appends with the three steps of one
  rotation, the records appended before the snapshot are in the archive (after the
  log's earlier content), the records appended after the truncation are in the live log
  (around the rotation's own note), each once and in order, and the records appended
  between the snapshot and the truncation are in neither. All N records survive exactly
  when none is appended between those two steps.
\<close>

theorem interleaved_rotation:
  assumes l: "content fs LOG_FILE = Some d0" and a: "fs (compressed_log e) \<noteq> Some Dir"
  shows "\<exists>fs'. exec e NoFault
            (appends pre @ Rotate # appends mid @ Rotate # appends post1 @ Rotate # appends post2)
            (AtSnapshot, fs) = (Finished, fs')
          \<and> archived e fs' = d0 @ records e pre
          \<and> live fs' = records e post1
               @ [Line (format_record e (''Log compressed and saved as: '' @ compressed_log e))]
               @ records e post2"
proof -
  let ?A = "compressed_log e"
  let ?note = "Line (format_record e (''Log compressed and saved as: '' @ compressed_log e))"
  let ?r3 = "appends post1 @ Rotate # appends post2"
  let ?r2 = "appends mid @ Rotate # ?r3"
  from exec_appends [OF l, of e NoFault pre "Rotate # ?r2" AtSnapshot] obtain fs1 where
    e1: "exec e NoFault (appends pre @ Rotate # ?r2) (AtSnapshot, fs)
           = exec e NoFault (Rotate # ?r2) (AtSnapshot, fs1)" and
    c1: "content fs1 LOG_FILE = Some (d0 @ records e pre)" and
    o1: "\<forall>q. q \<noteq> LOG_FILE \<longrightarrow> fs1 q = fs q"
    by blast
  from o1 a have a1: "fs1 ?A \<noteq> Some Dir" by simp
  from snapshot_step [OF c1 a1] obtain fs2 where
    s2: "rot_step e NoFault AtSnapshot fs1 = (AtTruncate, fs2)" and
    c2: "content fs2 LOG_FILE = Some (d0 @ records e pre)" and
    g2: "content fs2 ?A = Some [GzBlob (d0 @ records e pre)]"
    by blast
  from exec_appends [OF c2, of e NoFault mid "Rotate # ?r3" AtTruncate] obtain fs3 where
    e3: "exec e NoFault ?r2 (AtTruncate, fs2) = exec e NoFault (Rotate # ?r3) (AtTruncate, fs3)" and
    c3: "content fs3 LOG_FILE = Some ((d0 @ records e pre) @ records e mid)" and
    o3: "\<forall>q. q \<noteq> LOG_FILE \<longrightarrow> fs3 q = fs2 q"
    by blast
  from truncate_step [OF c3] obtain fs4 where
    s4: "rot_step e NoFault AtTruncate fs3 = (AtNote, fs4)" and
    c4: "content fs4 LOG_FILE = Some []" and
    o4: "\<forall>q. q \<noteq> LOG_FILE \<longrightarrow> fs4 q = fs3 q"
    by blast
  from exec_appends [OF c4, of e NoFault post1 "Rotate # appends post2" AtNote] obtain fs5 where
    e5: "exec e NoFault ?r3 (AtNote, fs4) = exec e NoFault (Rotate # appends post2) (AtNote, fs5)" and
    c5: "content fs5 LOG_FILE = Some ([] @ records e post1)" and
    o5: "\<forall>q. q \<noteq> LOG_FILE \<longrightarrow> fs5 q = fs4 q"
    by blast
  from note_step [OF c5] obtain fs6 where
    s6: "rot_step e NoFault AtNote fs5 = (Finished, fs6)" and
    c6: "content fs6 LOG_FILE = Some (([] @ records e post1) @ [?note])" and
    o6: "\<forall>q. q \<noteq> LOG_FILE \<longrightarrow> fs6 q = fs5 q"
    by blast
  from exec_appends [OF c6, of e NoFault post2 "[]" Finished] obtain fs7 where
    e7: "exec e NoFault (appends post2 @ []) (Finished, fs6) = exec e NoFault [] (Finished, fs7)" and
    c7: "content fs7 LOG_FILE = Some ((([] @ records e post1) @ [?note]) @ records e post2)" and
    o7: "\<forall>q. q \<noteq> LOG_FILE \<longrightarrow> fs7 q = fs6 q"
    by blast
  have "exec e NoFault (appends pre @ Rotate # ?r2) (AtSnapshot, fs)
          = exec e NoFault ?r2 (AtTruncate, fs2)"
    unfolding e1 by (simp only: exec.simps s2)
  also have "\<dots> = exec e NoFault ?r3 (AtNote, fs4)"
    unfolding e3 by (simp only: exec.simps s4)
  also have "\<dots> = exec e NoFault (appends post2) (Finished, fs6)"
    unfolding e5 by (simp only: exec.simps s6)
  also have "\<dots> = (Finished, fs7)"
    using e7 by (simp only: append_Nil2 exec.simps)
  finally have run: "exec e NoFault (appends pre @ Rotate # ?r2) (AtSnapshot, fs) = (Finished, fs7)" .
  have n: "?A \<noteq> LOG_FILE" by simp
  have "fs7 ?A = fs2 ?A"
    using o3 o4 o5 o6 o7 n by metis
  then have "content fs7 ?A = Some [GzBlob (d0 @ records e pre)]"
    using g2 by (simp add: content_def)
  then have arch: "archived e fs7 = d0 @ records e pre"
    by (simp add: archived_def)
  have lv: "live fs7 = records e post1 @ [?note] @ records e post2"
    using c7 by (simp add: live_def)
  from run arch lv show ?thesis by blast
qed

theorem interleaved_rotation_witness:
  "content ex_fs LOG_FILE = Some [Line ''r0''] \<and> ex_fs (compressed_log ex_env) \<noteq> Some Dir
   \<and> (\<exists>fs'. exec ex_env NoFault [Append ''a'', Rotate, Append ''x'', Rotate, Rotate, Append ''b'']
              (AtSnapshot, ex_fs) = (Finished, fs')
          \<and> archived ex_env fs' = [Line ''r0'', Line (format_record ex_env ''a'')]
          \<and> live fs' = [Line (format_record ex_env
                 (''Log compressed and saved as: '' @ compressed_log ex_env)),
                        Line (format_record ex_env ''b'')])"
proof -
  have l: "content ex_fs LOG_FILE = Some [Line ''r0'']"
    by (simp add: ex_fs_def content_def)
  have a: "ex_fs (compressed_log ex_env) \<noteq> Some Dir"
    by (simp add: ex_fs_def)
  have s: "appends [''a''] @ Rotate # appends [''x''] @ Rotate # appends [] @ Rotate # appends [''b'']
       = [Append ''a'', Rotate, Append ''x'', Rotate, Rotate, Append ''b'']"
    by (simp add: appends_def)
  have r: "records ex_env [''a''] = [Line (format_record ex_env ''a'')]"
      "records ex_env [''b''] = [Line (format_record ex_env ''b'')]"
      "records ex_env [] = []"
    by (simp_all add: records_def)
  from interleaved_rotation [OF l a, of "[''a'']" "[''x'']" "[]" "[''b'']"]
  have "\<exists>fs'. exec ex_env NoFault [Append ''a'', Rotate, Append ''x'', Rotate, Rotate, Append ''b'']
              (AtSnapshot, ex_fs) = (Finished, fs')
          \<and> archived ex_env fs' = [Line ''r0'', Line (format_record ex_env ''a'')]
          \<and> live fs' = [Line (format_record ex_env
                 (''Log compressed and saved as: '' @ compressed_log ex_env)),
                        Line (format_record ex_env ''b'')]"
    unfolding s r by simp
  with l a show ?thesis by blast
qed


section \<open>Retention sweep\<close>

lemma join_log:
  "prefix ''file_changes.log'' n \<Longrightarrow> os_path_join ''/var/log'' n = ''/var/log/'' @ n"
  by (auto simp: os_path_join_def elim!: prefixE)

lemma join_is_log:
  "prefix ''file_changes.log'' n \<Longrightarrow>
   (os_path_join ''/var/log'' n = LOG_FILE) = (n = ''file_changes.log'')"
  by (auto simp: join_log LOG_FILE_def)

lemma join_inj:
  "prefix ''file_changes.log'' n \<Longrightarrow> prefix ''file_changes.log'' n' \<Longrightarrow>
   (os_path_join ''/var/log'' n = os_path_join ''/var/log'' n') = (n = n')"
  by (simp add: join_log)

lemma loop_skip:
  "\<not> deletes ct fs x \<Longrightarrow>
   delete_old_logs_loop e rf ct (x # xs) fs = delete_old_logs_loop e rf ct xs fs"
  by (auto simp: deletes_def expired_def Let_def os_path_isfile_def os_path_getmtime_def
      split: option.splits node.splits)

lemma loop_fail:
  "deletes ct fs x \<Longrightarrow> rf (os_path_join ''/var/log'' x) \<Longrightarrow>
   delete_old_logs_loop e rf ct (x # xs) fs = (Some (Exception ''Permission denied''), fs)"
  by (auto simp: deletes_def expired_def Let_def os_path_isfile_def os_path_getmtime_def
      split: option.splits node.splits)

lemma loop_del:
  "deletes ct fs x \<Longrightarrow> \<not> rf (os_path_join ''/var/log'' x) \<Longrightarrow>
   delete_old_logs_loop e rf ct (x # xs) fs =
     delete_old_logs_loop e rf ct xs
       (logging_info e (''Deleted old log file: '' @ os_path_join ''/var/log'' x)
          (fs(os_path_join ''/var/log'' x := None)))"
  by (auto simp: deletes_def expired_def Let_def os_path_isfile_def os_path_getmtime_def
      split: option.splits node.splits)

declare delete_old_logs_loop.simps(2) [simp del]

lemma deletes_prefix: "deletes ct fs x \<Longrightarrow> prefix ''file_changes.log'' x"
  by (simp add: deletes_def)

lemma logging_info_None: "fs p = None \<Longrightarrow> logging_info e msg fs p = None"
  by (auto simp: logging_info_def split: option.splits node.splits)

lemma loop_none:
  "fs p = None \<Longrightarrow> snd (delete_old_logs_loop e rf ct names fs) p = None"
proof (induction names arbitrary: fs)
  case Nil
  then show ?case by simp
next
  case (Cons x xs)
  let ?P = "os_path_join ''/var/log'' x"
  consider (skip) "\<not> deletes ct fs x" | (fail) "deletes ct fs x" "rf ?P"
    | (del) "deletes ct fs x" "\<not> rf ?P"
    by blast
  then show ?case
  proof cases
    case skip
    then show ?thesis using Cons by (simp add: loop_skip)
  next
    case fail
    then show ?thesis using Cons.prems by (simp add: loop_fail)
  next
    case del
    have "logging_info e (''Deleted old log file: '' @ ?P) (fs(?P := None)) p = None"
      using Cons.prems by (intro logging_info_None) simp
    then show ?thesis using del Cons.IH by (simp add: loop_del)
  qed
qed

lemma loop_frame:
  "p \<noteq> LOG_FILE \<Longrightarrow>
   \<forall>n\<in>set names. prefix ''file_changes.log'' n \<longrightarrow> os_path_join ''/var/log'' n \<noteq> p \<Longrightarrow>
   snd (delete_old_logs_loop e rf ct names fs) p = fs p"
proof (induction names arbitrary: fs)
  case Nil
  then show ?case by simp
next
  case (Cons x xs)
  let ?P = "os_path_join ''/var/log'' x"
  have rest: "\<forall>n\<in>set xs. prefix ''file_changes.log'' n \<longrightarrow> os_path_join ''/var/log'' n \<noteq> p"
    using Cons.prems(2) by simp
  consider (skip) "\<not> deletes ct fs x" | (fail) "deletes ct fs x" "rf ?P"
    | (del) "deletes ct fs x" "\<not> rf ?P"
    by blast
  then show ?case
  proof cases
    case skip
    then show ?thesis using Cons.IH [OF Cons.prems(1) rest] by (simp add: loop_skip)
  next
    case fail
    then show ?thesis by (simp add: loop_fail)
  next
    case del
    let ?fs = "logging_info e (''Deleted old log file: '' @ ?P) (fs(?P := None))"
    from del have "?P \<noteq> p" using Cons.prems(2) by (simp add: deletes_prefix)
    then have "?fs p = fs p" using Cons.prems(1) by (simp add: logging_info_other)
    then show ?thesis using del Cons.IH [OF Cons.prems(1) rest, of ?fs] by (simp add: loop_del)
  qed
qed

lemma loop_append:
  "fst (delete_old_logs_loop e rf ct xs fs) = None \<Longrightarrow>
   delete_old_logs_loop e rf ct (xs @ ys) fs =
     delete_old_logs_loop e rf ct ys (snd (delete_old_logs_loop e rf ct xs fs))"
proof (induction xs arbitrary: fs)
  case Nil
  then show ?case by simp
next
  case (Cons x xs)
  let ?P = "os_path_join ''/var/log'' x"
  consider (skip) "\<not> deletes ct fs x" | (fail) "deletes ct fs x" "rf ?P"
    | (del) "deletes ct fs x" "\<not> rf ?P"
    by blast
  then show ?case
  proof cases
    case skip
    then show ?thesis using Cons by (simp add: loop_skip)
  next
    case fail
    then show ?thesis using Cons.prems by (simp add: loop_fail)
  next
    case del
    then show ?thesis using Cons by (simp add: loop_del)
  qed
qed

lemma loop_skip_all:
  "\<forall>n\<in>set pre. \<not> deletes ct fs n \<Longrightarrow>
   delete_old_logs_loop e rf ct (pre @ rest) fs = delete_old_logs_loop e rf ct rest fs"
  by (induction pre) (simp_all add: loop_skip)

lemma loop_decides:
  "n \<in> set names \<Longrightarrow> prefix ''file_changes.log'' n \<Longrightarrow> n \<noteq> ''file_changes.log'' \<Longrightarrow>
   fs (os_path_join ''/var/log'' n) = Some (File d m) \<Longrightarrow>
   fst (delete_old_logs_loop e rf ct names fs) = None \<Longrightarrow>
   snd (delete_old_logs_loop e rf ct names fs) (os_path_join ''/var/log'' n) =
     (if expired ct m then None else Some (File d m))"
proof (induction names arbitrary: fs)
  case Nil
  then show ?case by simp
next
  case (Cons x xs)
  let ?P = "os_path_join ''/var/log'' x"
  let ?N = "os_path_join ''/var/log'' n"
  have nl: "?N \<noteq> LOG_FILE"
    using Cons.prems(2,3) by (simp add: join_is_log)
  have dn: "deletes ct fs n = expired ct m"
    using Cons.prems(2,4) by (simp add: deletes_def)
  consider (skip) "\<not> deletes ct fs x" | (fail) "deletes ct fs x" "rf ?P"
    | (del) "deletes ct fs x" "\<not> rf ?P"
    by blast
  then show ?case
  proof cases
    case skip
    then have eq: "delete_old_logs_loop e rf ct (x # xs) fs = delete_old_logs_loop e rf ct xs fs"
      by (rule loop_skip)
    show ?thesis
    proof (cases "n \<in> set xs")
      case True
      from Cons.IH [of fs, OF True Cons.prems(2,3,4)] Cons.prems(5) show ?thesis
        unfolding eq by simp
    next
      case False
      with Cons.prems(1) have xn: "x = n" by simp
      with skip dn have ne: "\<not> expired ct m" by simp
      have "\<forall>k\<in>set xs. prefix ''file_changes.log'' k \<longrightarrow> os_path_join ''/var/log'' k \<noteq> ?N"
        using False Cons.prems(2) by (auto simp: join_inj)
      from loop_frame [OF nl this] have "snd (delete_old_logs_loop e rf ct xs fs) ?N = fs ?N" .
      with ne Cons.prems(4) show ?thesis unfolding eq by simp
    qed
  next
    case fail
    then have "delete_old_logs_loop e rf ct (x # xs) fs = (Some (Exception ''Permission denied''), fs)"
      by (rule loop_fail)
    with Cons.prems(5) show ?thesis by simp
  next
    case del
    let ?fs = "logging_info e (''Deleted old log file: '' @ ?P) (fs(?P := None))"
    from del have eq: "delete_old_logs_loop e rf ct (x # xs) fs = delete_old_logs_loop e rf ct xs ?fs"
      by (rule loop_del)
    show ?thesis
    proof (cases "x = n")
      case True
      with del dn have ex: "expired ct m" by simp
      have "?fs ?N = None"
        using True nl by (simp add: logging_info_other)
      then have "snd (delete_old_logs_loop e rf ct xs ?fs) ?N = None"
        by (rule loop_none)
      with ex show ?thesis unfolding eq by simp
    next
      case False
      with Cons.prems(1) have mem: "n \<in> set xs" by simp
      from del(1) have px: "prefix ''file_changes.log'' x" by (rule deletes_prefix)
      from False px Cons.prems(2) have "?P \<noteq> ?N" by (simp add: join_inj)
      then have same: "?fs ?N = Some (File d m)"
        using nl Cons.prems(4) by (simp add: logging_info_other)
      from Cons.prems(5) have ok: "fst (delete_old_logs_loop e rf ct xs ?fs) = None"
        unfolding eq .
      from Cons.IH [of ?fs, OF mem Cons.prems(2,3) same ok] show ?thesis unfolding eq .
    qed
  qed
qed

lemmas ex_sweep_defs = delete_old_logs_def delete_old_logs_loop.simps os_path_join_def Let_def
  ex_log_dir_def LOG_FILE_def logging_info_def LOG_RETENTION_DAYS_def never_fails_def
  ex_protected_def deletes_def expired_def format_record_def os_path_isfile_def
  os_path_getmtime_def

lemma ex_now: "now_time ex_env = 1000000" by (simp add: ex_env_def)

lemma ex_sweep_archives:
  "fst (delete_old_logs ex_env never_fails
          [''file_changes.log_20231228_000000.gz'', ''file_changes.log_20231230_000000.gz'',
           ''syslog''] ex_log_dir) = None"
  by (simp add: ex_sweep_defs ex_now)

text \<open>
  C5, as stated, fails for the live log, which matches the prefix as every archive does:
  the deletion of an archive listed before it logs a record, the record refreshes the live
  log's last-modified time, and the live log, 8 days old when the sweep began, is kept.
\<close>

theorem sweep_keeps_refreshed_log:
  "ex_log_dir LOG_FILE = Some (File [Line ''r0''] 308800)
   \<and> now_time ex_env - 308800 > (604800 :: real)
   \<and> fst (delete_old_logs ex_env never_fails
          [''file_changes.log_20231228_000000.gz'', ''file_changes.log''] ex_log_dir) = None
   \<and> snd (delete_old_logs ex_env never_fails
          [''file_changes.log_20231228_000000.gz'', ''file_changes.log''] ex_log_dir) LOG_FILE
        \<noteq> None"
  by (simp add: ex_sweep_defs ex_now)

text \<open>
  C5, amended. In a sweep that raises no error, every regular file of the log directory
  whose name starts with \<open>file_changes.log\<close>, the live log itself apart, is deleted if
  and only if the time of the sweep minus its last-modified time exceeds 604800 seconds;
  a file that is kept is left as it was. An archive of 8 days is deleted, one of 6 days
  is kept.
\<close>

theorem sweep_decides_archives:
  assumes "n \<in> set names" and "prefix ''file_changes.log'' n" and "n \<noteq> ''file_changes.log''"
    and "fs (os_path_join ''/var/log'' n) = Some (File d m)"
    and "fst (delete_old_logs e rf names fs) = None"
  shows "snd (delete_old_logs e rf names fs) (os_path_join ''/var/log'' n) =
           (if now_time e - m > 604800 then None else Some (File d m))"
  using loop_decides [of n names fs d m e rf "now_time e"] assms
  by (simp add: delete_old_logs_def expired_def LOG_RETENTION_DAYS_def)

theorem sweep_decides_archives_witness:
  "fst (delete_old_logs ex_env never_fails
          [''file_changes.log_20231228_000000.gz'', ''file_changes.log_20231230_000000.gz'',
           ''syslog''] ex_log_dir) = None
   \<and> snd (delete_old_logs ex_env never_fails
          [''file_changes.log_20231228_000000.gz'', ''file_changes.log_20231230_000000.gz'',
           ''syslog''] ex_log_dir) ''/var/log/file_changes.log_20231228_000000.gz'' = None
   \<and> snd (delete_old_logs ex_env never_fails
          [''file_changes.log_20231228_000000.gz'', ''file_changes.log_20231230_000000.gz'',
           ''syslog''] ex_log_dir) ''/var/log/file_changes.log_20231230_000000.gz''
        = Some (File [GzBlob []] 481600)"
proof -
  let ?names = "[''file_changes.log_20231228_000000.gz'', ''file_changes.log_20231230_000000.gz'',
           ''syslog'']"
  have j1: "os_path_join ''/var/log'' ''file_changes.log_20231228_000000.gz''
             = ''/var/log/file_changes.log_20231228_000000.gz''"
    by (simp add: os_path_join_def)
  have j2: "os_path_join ''/var/log'' ''file_changes.log_20231230_000000.gz''
             = ''/var/log/file_changes.log_20231230_000000.gz''"
    by (simp add: os_path_join_def)
  have f1: "ex_log_dir (os_path_join ''/var/log'' ''file_changes.log_20231228_000000.gz'')
              = Some (File [GzBlob []] 308800)"
    unfolding j1 by (simp add: ex_log_dir_def LOG_FILE_def)
  have f2: "ex_log_dir (os_path_join ''/var/log'' ''file_changes.log_20231230_000000.gz'')
              = Some (File [GzBlob []] 481600)"
    unfolding j2 by (simp add: ex_log_dir_def LOG_FILE_def)
  have a: "snd (delete_old_logs ex_env never_fails ?names ex_log_dir)
             (os_path_join ''/var/log'' ''file_changes.log_20231228_000000.gz'') = None"
    using sweep_decides_archives [of "''file_changes.log_20231228_000000.gz''" ?names ex_log_dir
        "[GzBlob []]" 308800 ex_env never_fails] f1 ex_sweep_archives
    by (simp add: ex_now)
  have b: "snd (delete_old_logs ex_env never_fails ?names ex_log_dir)
             (os_path_join ''/var/log'' ''file_changes.log_20231230_000000.gz'')
           = Some (File [GzBlob []] 481600)"
    using sweep_decides_archives [of "''file_changes.log_20231230_000000.gz''" ?names ex_log_dir
        "[GzBlob []]" 481600 ex_env never_fails] f2 ex_sweep_archives
    by (simp add: ex_now)
  from a b ex_sweep_archives show ?thesis unfolding j1 j2 by blast
qed

text \<open>
  C6, as stated, fails: \<open>os.remove\<close> is called with no handler inside the loop, so its
  exception ends the sweep. The 9-day archive listed after the protected one is expired
  and removable, and it is still there after the sweep.
\<close>

theorem sweep_aborts_on_failure:
  "deletes (now_time ex_env) ex_log_dir ''file_changes.log_20231227_000000.gz''
   \<and> \<not> ex_protected ''/var/log/file_changes.log_20231227_000000.gz''
   \<and> fst (delete_old_logs ex_env ex_protected
          [''file_changes.log_20231228_000000.gz'', ''file_changes.log_20231227_000000.gz'']
          ex_log_dir) = Some (Exception ''Permission denied'')
   \<and> snd (delete_old_logs ex_env ex_protected
          [''file_changes.log_20231228_000000.gz'', ''file_changes.log_20231227_000000.gz'']
          ex_log_dir) ''/var/log/file_changes.log_20231227_000000.gz''
       = Some (File [GzBlob []] 222400)"
  by (simp add: ex_sweep_defs ex_now)

text \<open>
  C6, amended. When deleting a file fails, the sweep ends at that file with that error:
  its result is the state reached just before that file, and the files listed after it are
  not visited in this run. So each file listed after it whose name has the prefix, that is
  not also listed before it and is not the live log, is exactly as it was before the sweep.
\<close>

theorem sweep_stops_at_failure:
  assumes "fst (delete_old_logs e rf pre fs) = None"
    and "deletes (now_time e) (snd (delete_old_logs e rf pre fs)) x"
    and "rf (os_path_join ''/var/log'' x)"
  shows "delete_old_logs e rf (pre @ x # post) fs =
           (Some (Exception ''Permission denied''), snd (delete_old_logs e rf pre fs))
       \<and> (\<forall>n\<in>set post. prefix ''file_changes.log'' n \<and> n \<noteq> ''file_changes.log'' \<and> n \<notin> set pre
            \<longrightarrow> snd (delete_old_logs e rf (pre @ x # post) fs) (os_path_join ''/var/log'' n)
                  = fs (os_path_join ''/var/log'' n))"
proof -
  let ?ct = "now_time e"
  let ?fs1 = "snd (delete_old_logs_loop e rf ?ct pre fs)"
  from assms(1) have ok: "fst (delete_old_logs_loop e rf ?ct pre fs) = None"
    by (simp add: delete_old_logs_def)
  from assms(2) have d: "deletes ?ct ?fs1 x" by (simp add: delete_old_logs_def)
  have eq: "delete_old_logs_loop e rf ?ct (pre @ x # post) fs
          = (Some (Exception ''Permission denied''), ?fs1)"
    using loop_append [OF ok, of "x # post"] loop_fail [of ?ct ?fs1 x rf e post] d assms(3) by simp
  have fr: "?fs1 (os_path_join ''/var/log'' n) = fs (os_path_join ''/var/log'' n)"
    if "prefix ''file_changes.log'' n" "n \<noteq> ''file_changes.log''" "n \<notin> set pre" for n
  proof -
    have nl: "os_path_join ''/var/log'' n \<noteq> LOG_FILE"
      using that(1,2) by (simp add: join_is_log)
    have "\<forall>k\<in>set pre. prefix ''file_changes.log'' k \<longrightarrow>
            os_path_join ''/var/log'' k \<noteq> os_path_join ''/var/log'' n"
      using that(1,3) by (auto simp: join_inj)
    from loop_frame [OF nl this] show ?thesis .
  qed
  show ?thesis
    using eq fr by (simp add: delete_old_logs_def)
qed

theorem sweep_stops_at_failure_witness:
  "fst (delete_old_logs ex_env ex_protected [''file_changes.log_20231230_000000.gz''] ex_log_dir)
     = None
   \<and> deletes (now_time ex_env)
        (snd (delete_old_logs ex_env ex_protected [''file_changes.log_20231230_000000.gz'']
               ex_log_dir))
        ''file_changes.log_20231228_000000.gz''
   \<and> ex_protected (os_path_join ''/var/log'' ''file_changes.log_20231228_000000.gz'')
   \<and> fst (delete_old_logs ex_env ex_protected
          [''file_changes.log_20231230_000000.gz'', ''file_changes.log_20231228_000000.gz'',
           ''file_changes.log_20231227_000000.gz''] ex_log_dir)
       = Some (Exception ''Permission denied'')
   \<and> snd (delete_old_logs ex_env ex_protected
          [''file_changes.log_20231230_000000.gz'', ''file_changes.log_20231228_000000.gz'',
           ''file_changes.log_20231227_000000.gz''] ex_log_dir)
         (os_path_join ''/var/log'' ''file_changes.log_20231227_000000.gz'')
       = Some (File [GzBlob []] 222400)"
proof -
  let ?pre = "[''file_changes.log_20231230_000000.gz'']"
  have 0: "delete_old_logs ex_env ex_protected ?pre ex_log_dir = (None, ex_log_dir)"
    by (simp add: ex_sweep_defs ex_now)
  have 1: "fst (delete_old_logs ex_env ex_protected ?pre ex_log_dir) = None"
    by (simp add: 0)
  have 2: "deletes (now_time ex_env) (snd (delete_old_logs ex_env ex_protected ?pre ex_log_dir))
             ''file_changes.log_20231228_000000.gz''"
    unfolding 0 by (simp add: ex_sweep_defs ex_now)
  have 3: "ex_protected (os_path_join ''/var/log'' ''file_changes.log_20231228_000000.gz'')"
    by (simp add: ex_protected_def os_path_join_def)
  have 4: "ex_log_dir (os_path_join ''/var/log'' ''file_changes.log_20231227_000000.gz'')
             = Some (File [GzBlob []] 222400)"
    by (simp add: ex_log_dir_def os_path_join_def LOG_FILE_def)
  note T = sweep_stops_at_failure [of ex_env ex_protected ?pre ex_log_dir
      "''file_changes.log_20231228_000000.gz''" "[''file_changes.log_20231227_000000.gz'']",
      OF 1 2 3]
  have A: "fst (delete_old_logs ex_env ex_protected
          [''file_changes.log_20231230_000000.gz'', ''file_changes.log_20231228_000000.gz'',
           ''file_changes.log_20231227_000000.gz''] ex_log_dir)
       = Some (Exception ''Permission denied'')"
    using T [THEN conjunct1] by simp
  have B: "snd (delete_old_logs ex_env ex_protected
          [''file_changes.log_20231230_000000.gz'', ''file_changes.log_20231228_000000.gz'',
           ''file_changes.log_20231227_000000.gz''] ex_log_dir)
         (os_path_join ''/var/log'' ''file_changes.log_20231227_000000.gz'')
       = Some (File [GzBlob []] 222400)"
    using T [THEN conjunct2] unfolding 4 [symmetric] by simp
  note A B
  with 1 2 3 show ?thesis by blast
qed

text \<open>
  C9, as stated, fails when an expired archive is listed before the live log: deleting the
  archive logs a record, so the live log is found freshly written and is kept, with the
  new record in it.
\<close>

theorem sweep_live_log_survives:
  "snd (delete_old_logs ex_env never_fails
          [''file_changes.log_20231230_000000.gz'', ''file_changes.log_20231228_000000.gz'',
           ''file_changes.log''] ex_log_dir) LOG_FILE
     = Some (File [Line ''r0'',
                   Line (format_record ex_env
                     ''Deleted old log file: /var/log/file_changes.log_20231228_000000.gz'')]
               1000000)"
  by (simp add: ex_sweep_defs ex_now)

text \<open>
  C9, amended. The live log matches the prefix the sweep selects by. When it is listed
  and is a regular file, its last-modified time is more than 604800 seconds before the
  sweep, its removal does not fail, and no name listed before it is due for deletion (a
  regular file with the prefix whose last-modified time is more than 604800 seconds before
  the sweep), the sweep deletes the live log itself.
\<close>

theorem sweep_deletes_live_log:
  assumes "fs LOG_FILE = Some (File d m)" and "now_time e - m > 604800"
    and "\<not> rf LOG_FILE"
    and "\<forall>n\<in>set pre. \<not> deletes (now_time e) fs n"
  shows "snd (delete_old_logs e rf (pre @ ''file_changes.log'' # post) fs) LOG_FILE = None"
proof -
  let ?ct = "now_time e"
  have j: "os_path_join ''/var/log'' ''file_changes.log'' = LOG_FILE"
    by (simp add: join_is_log)
  have d: "deletes ?ct fs ''file_changes.log''"
    using assms(1,2) by (simp add: deletes_def j expired_def LOG_RETENTION_DAYS_def)
  let ?fs = "logging_info e (''Deleted old log file: '' @ LOG_FILE) (fs(LOG_FILE := None))"
  have "delete_old_logs_loop e rf ?ct (pre @ ''file_changes.log'' # post) fs
          = delete_old_logs_loop e rf ?ct (''file_changes.log'' # post) fs"
    using assms(4) by (rule loop_skip_all)
  also have "\<dots> = delete_old_logs_loop e rf ?ct post ?fs"
    using loop_del [OF d, of rf e post] assms(3) by (simp add: j)
  finally have eq: "delete_old_logs_loop e rf ?ct (pre @ ''file_changes.log'' # post) fs
          = delete_old_logs_loop e rf ?ct post ?fs" .
  have "?fs LOG_FILE = None" by (simp add: logging_info_def)
  then have "snd (delete_old_logs_loop e rf ?ct post ?fs) LOG_FILE = None"
    by (rule loop_none)
  then show ?thesis by (simp add: delete_old_logs_def eq)
qed

theorem sweep_deletes_live_log_witness:
  "ex_log_dir LOG_FILE = Some (File [Line ''r0''] 308800)
   \<and> now_time ex_env - 308800 > (604800 :: real)
   \<and> \<not> never_fails LOG_FILE
   \<and> \<not> deletes (now_time ex_env) ex_log_dir ''file_changes.log_20231230_000000.gz''
   \<and> \<not> deletes (now_time ex_env) ex_log_dir ''syslog''
   \<and> snd (delete_old_logs ex_env never_fails
          [''file_changes.log_20231230_000000.gz'', ''syslog'', ''file_changes.log'',
           ''file_changes.log_20231228_000000.gz''] ex_log_dir) LOG_FILE = None"
proof -
  have 1: "ex_log_dir LOG_FILE = Some (File [Line ''r0''] 308800)"
    by (simp add: ex_log_dir_def LOG_FILE_def)
  have 2: "now_time ex_env - 308800 > (604800 :: real)" by (simp add: ex_now)
  have 3: "\<not> never_fails LOG_FILE" by (simp add: never_fails_def)
  have 4: "\<not> deletes (now_time ex_env) ex_log_dir ''file_changes.log_20231230_000000.gz''"
    by (simp add: ex_sweep_defs ex_now)
  have 5: "\<not> deletes (now_time ex_env) ex_log_dir ''syslog''"
    by (simp add: deletes_def)
  have 6: "\<forall>n\<in>set [''file_changes.log_20231230_000000.gz'', ''syslog''].
             \<not> deletes (now_time ex_env) ex_log_dir n"
    using 4 5 by simp
  from sweep_deletes_live_log [of ex_log_dir "[Line ''r0'']" 308800 ex_env never_fails
      "[''file_changes.log_20231230_000000.gz'', ''syslog'']"
      "[''file_changes.log_20231228_000000.gz'']"] 1 2 3 6
  have "snd (delete_old_logs ex_env never_fails
          [''file_changes.log_20231230_000000.gz'', ''syslog'', ''file_changes.log'',
           ''file_changes.log_20231228_000000.gz''] ex_log_dir) LOG_FILE = None"
    by simp
  with 1 2 3 4 5 show ?thesis by blast
qed


section \<open>The loop of main: order and failures\<close>

lemma iteration_rot_fails:
  assumes "compress_log (rot_env ie) (rot_fault ie) (files st) = (Some x, fs1)"
  shows "calls (iteration ie st) =
           calls st @ [CompressLog, case x of KeyboardInterrupt \<Rightarrow> ObserverStop
                                    | Exception m \<Rightarrow> LogError (''Error: '' @ m)]"
    and "running (iteration ie st) =
           (case x of KeyboardInterrupt \<Rightarrow> False | Exception m \<Rightarrow> running st)"
    and "files (iteration ie st) =
           (case x of KeyboardInterrupt \<Rightarrow> logging_info (exc_env ie)
                         (DELETED_ICON @ '' File Integrity Monitoring Stopped!'') fs1
            | Exception m \<Rightarrow> logging_error (exc_env ie) (''Error: '' @ m) fs1)"
  using assms by (simp_all add: iteration_def Let_def handle_def split: exn.splits)

lemma iteration_interrupted:
  assumes "compress_log (rot_env ie) (rot_fault ie) (files st) = (None, fs1)"
    and "sleep_interrupted ie"
  shows "calls (iteration ie st) =
           calls st @ [CompressLog, Sleep COMPRESS_INTERVAL, ObserverStop]"
    and "running (iteration ie st) = False"
  using assms by (simp_all add: iteration_def Let_def handle_def)

lemma iteration_sweep_fails:
  assumes "compress_log (rot_env ie) (rot_fault ie) (files st) = (None, fs1)"
    and "\<not> sleep_interrupted ie"
    and "delete_old_logs (sweep_env ie) (remove_fails ie) (listdir ie) fs1 = (Some x, fs3)"
  shows "calls (iteration ie st) =
           calls st @ [CompressLog, Sleep COMPRESS_INTERVAL, DeleteOldLogs,
                       case x of KeyboardInterrupt \<Rightarrow> ObserverStop
                       | Exception m \<Rightarrow> LogError (''Error: '' @ m)]"
    and "running (iteration ie st) =
           (case x of KeyboardInterrupt \<Rightarrow> False | Exception m \<Rightarrow> running st)"
  using assms by (simp_all add: iteration_def Let_def handle_def split: exn.splits)

lemma iteration_clean:
  assumes "compress_log (rot_env ie) (rot_fault ie) (files st) = (None, fs1)"
    and "\<not> sleep_interrupted ie"
    and "delete_old_logs (sweep_env ie) (remove_fails ie) (listdir ie) fs1 = (None, fs3)"
  shows "calls (iteration ie st) =
           calls st @ [CompressLog, Sleep COMPRESS_INTERVAL, DeleteOldLogs]"
    and "running (iteration ie st) = running st"
    and "files (iteration ie st) = fs3"
  using assms by (simp_all add: iteration_def Let_def)

lemma compress_log_succeeds:
  "fs LOG_FILE = Some (File d m) \<Longrightarrow> fs (compressed_log e) \<noteq> Some Dir \<Longrightarrow>
   compress_log e NoFault fs =
     (None, (fs(compressed_log e \<mapsto> File [GzBlob d] (now_time e)))
              (LOG_FILE \<mapsto> File [Line (format_record e
                  (''Log compressed and saved as: '' @ compressed_log e))] (now_time e)))"
  by (simp add: compress_log_def rot_snapshot_def rot_truncate_def rot_note_def logging_info_def)

lemma sweep_fresh_log:
  assumes "fs LOG_FILE = Some (File d m)" and "\<not> expired (now_time e) m"
  shows "delete_old_logs e rf [''file_changes.log'', ''syslog''] fs = (None, fs)"
proof -
  have j: "os_path_join ''/var/log'' ''file_changes.log'' = LOG_FILE"
    by (simp add: join_is_log)
  have 1: "\<not> deletes (now_time e) fs ''file_changes.log''"
    using assms by (simp add: deletes_def j)
  have 2: "\<not> deletes (now_time e) fs ''syslog''"
    by (simp add: deletes_def)
  show ?thesis
    unfolding delete_old_logs_def using 1 2 by (simp add: loop_skip)
qed

lemma ex_iter_fields:
  "rot_env ex_iter = ex_env" "rot_fault ex_iter = NoFault" "\<not> sleep_interrupted ex_iter"
  "now_time (sweep_env ex_iter) = 1003600" "listdir ex_iter = [''file_changes.log'', ''syslog'']"
  "remove_fails ex_iter = never_fails" "exc_env ex_iter = ex_env"
  "rot_env ex_iter_fail = ex_env" "rot_fault ex_iter_fail = TruncateFails"
  "exc_env ex_iter_fail = ex_env"
  "files ex_state = ex_fs" "calls ex_state = []" "running ex_state"
  by (simp_all add: ex_iter_def ex_iter_fail_def ex_state_def)

lemma ex_fresh: "\<not> expired (now_time (sweep_env ex_iter)) (now_time ex_env)"
  by (simp add: ex_iter_fields expired_def LOG_RETENTION_DAYS_def ex_env_def)

lemma ex_first_pass:
  "calls (iteration ex_iter ex_state) = [CompressLog, Sleep 3600, DeleteOldLogs]"
proof -
  have f: "ex_fs LOG_FILE = Some (File [Line ''r0''] 999940)"
    by (simp add: ex_fs_def)
  have a: "ex_fs (compressed_log ex_env) \<noteq> Some Dir"
    by (simp add: ex_fs_def)
  let ?fs1 = "(ex_fs(compressed_log ex_env \<mapsto> File [GzBlob [Line ''r0'']] (now_time ex_env)))
              (LOG_FILE \<mapsto> File [Line (format_record ex_env
                  (''Log compressed and saved as: '' @ compressed_log ex_env))] (now_time ex_env))"
  have c: "compress_log (rot_env ex_iter) (rot_fault ex_iter) (files ex_state) = (None, ?fs1)"
    unfolding ex_iter_fields using compress_log_succeeds [OF f a] .
  have l: "?fs1 LOG_FILE = Some (File [Line (format_record ex_env
                  (''Log compressed and saved as: '' @ compressed_log ex_env))] (now_time ex_env))"
    by simp
  have d: "delete_old_logs (sweep_env ex_iter) (remove_fails ex_iter) (listdir ex_iter) ?fs1
             = (None, ?fs1)"
    unfolding ex_iter_fields(5) by (rule sweep_fresh_log) (rule l, rule ex_fresh)
  from iteration_clean(1) [OF c ex_iter_fields(3) d] show ?thesis
    by (simp add: ex_iter_fields COMPRESS_INTERVAL_def)
qed

text \<open>
  C2, as stated, fails: the loop body calls \<open>compress_log\<close> first and sleeps afterwards,
  so a pass in which nothing fails is rotation, sleep, sweep, and the sweep is separated
  from the rotation of its pass by the whole period.
\<close>

theorem rotation_precedes_sleep:
  "calls (iteration ex_iter ex_state) = [CompressLog, Sleep 3600, DeleteOldLogs]
   \<and> \<not> sleep_rotate_sweep (calls (iteration ex_iter ex_state))"
  by (simp add: ex_first_pass sleep_rotate_sweep_def)

text \<open>
  C2, amended. Every pass of the loop begins with the rotation and calls it once. The
  sweep is called in exactly the passes whose rotation raised nothing and whose sleep was
  not interrupted; it is then called once, and the pass runs in the order rotation, sleep
  for the period, sweep.
\<close>

theorem iteration_order:
  "\<exists>tail. calls (iteration ie st) = calls st @ CompressLog # tail
     \<and> CompressLog \<notin> set tail
     \<and> (DeleteOldLogs \<in> set tail \<longleftrightarrow>
          fst (compress_log (rot_env ie) (rot_fault ie) (files st)) = None
          \<and> \<not> sleep_interrupted ie)
     \<and> (DeleteOldLogs \<in> set tail \<longrightarrow>
          prefix [Sleep COMPRESS_INTERVAL, DeleteOldLogs] tail
          \<and> count_list tail DeleteOldLogs = 1)"
proof -
  obtain r fs1 where c: "compress_log (rot_env ie) (rot_fault ie) (files st) = (r, fs1)"
    by (cases "compress_log (rot_env ie) (rot_fault ie) (files st)")
  obtain r3 fs3 where
    d: "delete_old_logs (sweep_env ie) (remove_fails ie) (listdir ie) fs1 = (r3, fs3)"
    by (cases "delete_old_logs (sweep_env ie) (remove_fails ie) (listdir ie) fs1")
  show ?thesis
  proof (cases r)
    case (Some x)
    with c have cs: "compress_log (rot_env ie) (rot_fault ie) (files st) = (Some x, fs1)"
      by simp
    show ?thesis unfolding iteration_rot_fails(1) [OF cs] using cs
      by (cases x) simp_all
  next
    case None
    with c have cn: "compress_log (rot_env ie) (rot_fault ie) (files st) = (None, fs1)"
      by simp
    show ?thesis
    proof (cases "sleep_interrupted ie")
      case True
      show ?thesis unfolding iteration_interrupted(1) [OF cn True] using True by simp
    next
      case False
      show ?thesis
      proof (cases r3)
        case None
        with d have dn: "delete_old_logs (sweep_env ie) (remove_fails ie) (listdir ie) fs1
                           = (None, fs3)" by simp
        show ?thesis unfolding iteration_clean(1) [OF cn False dn] using cn False by simp
      next
        case (Some x)
        with d have ds: "delete_old_logs (sweep_env ie) (remove_fails ie) (listdir ie) fs1
                           = (Some x, fs3)" by simp
        show ?thesis unfolding iteration_sweep_fails(1) [OF cn False ds] using cn False
          by (cases x) simp_all
      qed
    qed
  qed
qed

theorem iteration_order_witness:
  "fst (compress_log (rot_env ex_iter) (rot_fault ex_iter) (files ex_state)) = None
   \<and> \<not> sleep_interrupted ex_iter
   \<and> (\<exists>tail. calls (iteration ex_iter ex_state) = CompressLog # tail
         \<and> prefix [Sleep 3600, DeleteOldLogs] tail
         \<and> count_list tail DeleteOldLogs = 1)"
proof -
  have f: "ex_fs LOG_FILE = Some (File [Line ''r0''] 999940)"
    by (simp add: ex_fs_def)
  have a: "ex_fs (compressed_log ex_env) \<noteq> Some Dir"
    by (simp add: ex_fs_def)
  have c: "fst (compress_log (rot_env ex_iter) (rot_fault ex_iter) (files ex_state)) = None"
    unfolding ex_iter_fields by (simp add: compress_log_succeeds [OF f a])
  have s: "\<not> sleep_interrupted ex_iter" by (simp add: ex_iter_fields)
  from iteration_order [of ex_iter ex_state] c s
  have "\<exists>tail. calls (iteration ex_iter ex_state) = CompressLog # tail
         \<and> prefix [Sleep 3600, DeleteOldLogs] tail
         \<and> count_list tail DeleteOldLogs = 1"
    by (auto simp add: ex_iter_fields COMPRESS_INTERVAL_def)
  with c s show ?thesis by blast
qed

text \<open>
  C3. A rotation that fails is logged, the rest of its pass is skipped and the loop goes
  on; but the sleep stands after \<open>compress_log\<close> inside the \<open>try\<close>, so the handler
  returns to the top of the loop without it and the next rotation is attempted at once,
  not one period later. Here the first pass fails at the truncation: the calls are the
  failed rotation, the logged error and, next, the rotation of the second pass.
\<close>

theorem failed_rotation_retried_at_once:
  "calls (main_loop [ex_iter_fail, ex_iter] ex_state) =
     [CompressLog, LogError ''Error: Permission denied'',
      CompressLog, Sleep 3600, DeleteOldLogs]
   \<and> running (main_loop [ex_iter_fail, ex_iter] ex_state)"
proof -
  let ?A = "compressed_log ex_env"
  let ?fs1 = "ex_fs(?A \<mapsto> File [GzBlob [Line ''r0'']] (now_time ex_env))"
  let ?st1 = "iteration ex_iter_fail ex_state"
  have c1: "compress_log (rot_env ex_iter_fail) (rot_fault ex_iter_fail) (files ex_state)
              = (Some (Exception ''Permission denied''), ?fs1)"
    unfolding ex_iter_fields
    by (simp add: compress_log_def rot_snapshot_def rot_truncate_def ex_fs_def)
  note p1 = iteration_rot_fails [OF c1]
  have k1: "calls ?st1 = [CompressLog, LogError ''Error: Permission denied'']"
    using p1(1) by (simp add: ex_iter_fields)
  have r1: "running ?st1" using p1(2) by (simp add: ex_iter_fields)
  have f1: "files ?st1 = logging_error ex_env ''Error: Permission denied'' ?fs1"
    using p1(3) by (simp add: ex_iter_fields)
  let ?d = "[Line ''r0'', Line (format_record ex_env ''Error: Permission denied'')]"
  have l1: "files ?st1 LOG_FILE = Some (File ?d (now_time ex_env))"
    unfolding f1 by (simp add: logging_error_def logging_info_def ex_fs_def)
  have a1: "files ?st1 ?A \<noteq> Some Dir"
    unfolding f1 by (simp add: logging_error_def logging_info_other)
  let ?fs2 = "((files ?st1)(?A \<mapsto> File [GzBlob ?d] (now_time ex_env)))
              (LOG_FILE \<mapsto> File [Line (format_record ex_env
                  (''Log compressed and saved as: '' @ ?A))] (now_time ex_env))"
  have c2: "compress_log (rot_env ex_iter) (rot_fault ex_iter) (files ?st1) = (None, ?fs2)"
    unfolding ex_iter_fields using compress_log_succeeds [OF l1 a1] .
  have l2: "?fs2 LOG_FILE = Some (File [Line (format_record ex_env
                  (''Log compressed and saved as: '' @ ?A))] (now_time ex_env))"
    by simp
  have d2: "delete_old_logs (sweep_env ex_iter) (remove_fails ex_iter) (listdir ex_iter) ?fs2
              = (None, ?fs2)"
    unfolding ex_iter_fields(5) by (rule sweep_fresh_log) (rule l2, rule ex_fresh)
  note p2 = iteration_clean [OF c2 ex_iter_fields(3) d2]
  have k2: "calls (iteration ex_iter ?st1) =
     [CompressLog, LogError ''Error: Permission denied'', CompressLog, Sleep 3600, DeleteOldLogs]"
    using p2(1) by (simp add: k1 COMPRESS_INTERVAL_def)
  have r2: "running (iteration ex_iter ?st1)"
    using p2(2) r1 by simp
  have m: "main_loop [ex_iter_fail, ex_iter] ex_state = iteration ex_iter ?st1"
    using r1 r2 by (simp add: Let_def)
  show ?thesis unfolding m using k2 r2 by simp
qed

end
